theory Spec2Isabelle
  imports Main
begin

section \<open>Python values, errors and dictionaries\<close>

text \<open>
  A Python \<open>str\<close> is a sequence of Unicode code points; a Braille cell (U+2800 block) is
  one code point, so strings are lists of code points and not lists of bytes.
  \<open>lit\<close> turns an ASCII literal of the source into such a string.
\<close>

type_synonym pystr = "nat list"

definition lit :: "string \<Rightarrow> pystr" where
  "lit s = map of_char s"

text \<open>
  The values that travel through \<open>call_tool\<close>: the JSON values of the \<open>arguments\<close>
  dictionary and the results of the encoder functions. Floats are left out.
\<close>

datatype pyval =
    PNone
  | PBool bool
  | PInt int
  | PStr pystr
  | PList "pyval list"
  | PTuple "pyval list"
  | PDict "(pystr \<times> pyval) list"

datatype py_error =
    KeyError pystr
  | TypeError pystr
  | ValueError pystr
  | ValidationError

definition py_bind :: "py_error + 'a \<Rightarrow> ('a \<Rightarrow> py_error + 'b) \<Rightarrow> py_error + 'b" where
  "py_bind m f = (case m of Inl e \<Rightarrow> Inl e | Inr x \<Rightarrow> f x)"

text \<open>\<open>arguments["key"]\<close>: raises KeyError when the key is absent.\<close>

definition getitem :: "(pystr \<rightharpoonup> pyval) \<Rightarrow> pystr \<Rightarrow> py_error + pyval" where
  "getitem d k = (case d k of None \<Rightarrow> Inl (KeyError k) | Some v \<Rightarrow> Inr v)"

text \<open>\<open>arguments.get("key", default)\<close>.\<close>

definition dict_get :: "(pystr \<rightharpoonup> pyval) \<Rightarrow> pystr \<Rightarrow> pyval \<Rightarrow> pyval" where
  "dict_get d k dflt = (case d k of None \<Rightarrow> dflt | Some v \<Rightarrow> v)"

text \<open>
  Looking a value up as the key of a dictionary hashes it first: lists and dictionaries
  are unhashable and the lookup raises TypeError.
\<close>

fun hashable :: "pyval \<Rightarrow> bool" where
  "hashable (PList xs) = False"
| "hashable (PDict kvs) = False"
| "hashable (PTuple xs) = list_all hashable xs"
| "hashable v = True"

section \<open>json.dumps\<close>

text \<open>
  \<open>json.dumps\<close> with its default options (\<open>ensure_ascii\<close>, separators \<open>", "\<close> and
  \<open>": "\<close>); tuples are written as arrays.
\<close>

fun nat_digits :: "nat \<Rightarrow> pystr" where
  "nat_digits n = (if n < 10 then [48 + n] else nat_digits (n div 10) @ [48 + n mod 10])"

definition int_repr :: "int \<Rightarrow> pystr" where
  "int_repr i = (if i < 0 then lit ''-'' @ nat_digits (nat (- i)) else nat_digits (nat i))"

definition hex_digit :: "nat \<Rightarrow> nat" where
  "hex_digit d = (if d < 10 then 48 + d else 87 + d)"

definition u_escape :: "nat \<Rightarrow> pystr" where
  "u_escape n = lit [CHR 0x5C, CHR ''u''] @
     [hex_digit (n div 4096 mod 16), hex_digit (n div 256 mod 16),
      hex_digit (n div 16 mod 16), hex_digit (n mod 16)]"

definition json_escape_char :: "nat \<Rightarrow> pystr" where
  "json_escape_char c =
     (if c = 0x22 then lit [CHR 0x5C, CHR 0x22]
      else if c = 0x5C then lit [CHR 0x5C, CHR 0x5C]
      else if c = 0x0A then lit [CHR 0x5C, CHR ''n'']
      else if c = 0x0D then lit [CHR 0x5C, CHR ''r'']
      else if c = 0x09 then lit [CHR 0x5C, CHR ''t'']
      else if c = 0x08 then lit [CHR 0x5C, CHR ''b'']
      else if c = 0x0C then lit [CHR 0x5C, CHR ''f'']
      else if 0x20 \<le> c \<and> c \<le> 0x7E then [c]
      else if c < 0x10000 then u_escape c
      else u_escape (0xD800 + (c - 0x10000) div 1024 mod 1024)
         @ u_escape (0xDC00 + (c - 0x10000) mod 1024))"

definition json_string :: "pystr \<Rightarrow> pystr" where
  "json_string s = lit [CHR 0x22] @ concat (map json_escape_char s) @ lit [CHR 0x22]"

fun join :: "'a list \<Rightarrow> 'a list list \<Rightarrow> 'a list" where
  "join sep [] = []"
| "join sep [x] = x"
| "join sep (x # y # ys) = x @ sep @ join sep (y # ys)"

fun json_dumps :: "pyval \<Rightarrow> pystr" where
  "json_dumps PNone = lit ''null''"
| "json_dumps (PBool b) = (if b then lit ''true'' else lit ''false'')"
| "json_dumps (PInt i) = int_repr i"
| "json_dumps (PStr s) = json_string s"
| "json_dumps (PList xs) = lit ''['' @ join (lit '', '') (map json_dumps xs) @ lit '']''"
| "json_dumps (PTuple xs) = lit ''['' @ join (lit '', '') (map json_dumps xs) @ lit '']''"
| "json_dumps (PDict kvs) =
     lit ''{'' @ join (lit '', '') (map (\<lambda>(k, v). json_string k @ lit '': '' @ json_dumps v) kvs)
       @ lit ''}''"

section \<open>The encoder modules as seen from the server\<close>

text \<open>
  \<open>server.py\<close> imports \<open>morse\<close> and \<open>braille\<close> from the \<open>encoders\<close> package and
  calls seven of their functions. The server passes whatever value the request holds, so
  each function takes Python values and either returns one or raises.
\<close>

datatype MorseFormat = STANDARD | VISUAL | BINARY

record encoders =
  enc_morse_encode :: "pyval \<Rightarrow> MorseFormat \<Rightarrow> py_error + pyval"
  enc_morse_decode :: "pyval \<Rightarrow> py_error + pyval"
  enc_morse_to_timing :: "pyval \<Rightarrow> pyval \<Rightarrow> py_error + pyval"
  enc_braille_encode :: "pyval \<Rightarrow> py_error + pyval"
  enc_braille_decode :: "pyval \<Rightarrow> py_error + pyval"
  enc_braille_to_punchcard_pattern :: "pyval \<Rightarrow> pyval \<Rightarrow> pyval \<Rightarrow> py_error + pyval"
  enc_braille_to_binary_grid :: "pyval \<Rightarrow> py_error + pyval"

text \<open>
  Modelled from the spec: the default values of the parameters the server leaves out.
  \<open>morse.encode(text)\<close> is called without a format, and the signatures of \<open>morse.py\<close>
  are not in the sources; the spec's example \<open>morse.encode("SOS") == "... --- ..."\<close> and
  the package docstring (\<open>morse.encode("HELLO")  # .... . .-.. .-.. ---\<close>) show the
  standard rendering. \<open>braille.to_punchcard_pattern(text)\<close> is called without cell
  dimensions; the spec gives the defaults 4 and 6.
\<close>

definition morse_encode_default_format :: MorseFormat where
  "morse_encode_default_format = STANDARD"

text \<open>Modelled from the spec: the default \<open>cell_width\<close> of \<open>braille.to_punchcard_pattern\<close>
  (the signature is in \<open>braille.py\<close>, not in the sources; the spec gives 4).\<close>

definition punchcard_default_cell_width :: pyval where
  "punchcard_default_cell_width = PInt 4"

text \<open>Modelled from the spec: the default \<open>cell_height\<close> of \<open>braille.to_punchcard_pattern\<close>
  (the spec gives 6).\<close>

definition punchcard_default_cell_height :: pyval where
  "punchcard_default_cell_height = PInt 6"

section \<open>server.py: call\_tool\<close>

datatype TextContent = TextContent (tc_type: pystr) (tc_text: pystr)

text \<open>
  \<open>[TextContent(type="text", text=result)]\<close>: the model class validates that the text is
  a \<open>str\<close>.
\<close>

definition text_content :: "pyval \<Rightarrow> py_error + TextContent list" where
  "text_content v = (case v of PStr s \<Rightarrow> Inr [TextContent (lit ''text'') s] | _ \<Rightarrow> Inl ValidationError)"

text \<open>
  The dictionary literal of the \<open>morse_encode\<close> branch and its
  \<open>.get(fmt, morse.MorseFormat.STANDARD)\<close>.
\<close>

definition format_table :: "(pyval \<times> MorseFormat) list" where
  "format_table =
     [(PStr (lit ''standard''), STANDARD),
      (PStr (lit ''visual''), VISUAL),
      (PStr (lit ''binary''), BINARY)]"

definition format_enum_of :: "pyval \<Rightarrow> py_error + MorseFormat" where
  "format_enum_of fmt =
     (if hashable fmt
      then Inr (case map_of format_table fmt of None \<Rightarrow> STANDARD | Some f \<Rightarrow> f)
      else Inl (TypeError (lit ''unhashable type'')))"

definition tool_names :: "pystr list" where
  "tool_names =
     [lit ''morse_encode'', lit ''morse_decode'', lit ''morse_timing'', lit ''braille_encode'',
      lit ''braille_decode'', lit ''braille_punchcard'', lit ''braille_binary_grid'',
      lit ''transcode'']"

text \<open>The two stages of the \<open>transcode\<close> branch, as the source writes them.\<close>

definition transcode_to_text :: "encoders \<Rightarrow> pyval \<Rightarrow> pyval \<Rightarrow> py_error + pyval" where
  "transcode_to_text enc from_fmt input_data =
     (if from_fmt = PStr (lit ''morse'') then enc_morse_decode enc input_data
      else if from_fmt = PStr (lit ''braille'') then enc_braille_decode enc input_data
      else Inr input_data)"

definition transcode_to_target :: "encoders \<Rightarrow> pyval \<Rightarrow> pyval \<Rightarrow> py_error + pyval" where
  "transcode_to_target enc to_fmt txt =
     (if to_fmt = PStr (lit ''morse'') then enc_morse_encode enc txt morse_encode_default_format
      else if to_fmt = PStr (lit ''morse_visual'') then enc_morse_encode enc txt VISUAL
      else if to_fmt = PStr (lit ''braille'') then enc_braille_encode enc txt
      else if to_fmt = PStr (lit ''punchcard'')
        then enc_braille_to_punchcard_pattern enc txt
               punchcard_default_cell_width punchcard_default_cell_height
      else Inr txt)"

definition call_tool :: "encoders \<Rightarrow> pystr \<Rightarrow> (pystr \<rightharpoonup> pyval) \<Rightarrow> py_error + TextContent list" where
  "call_tool enc name arguments =
     (if name = lit ''morse_encode'' then
        py_bind (getitem arguments (lit ''text'')) (\<lambda>txt.
        let fmt = dict_get arguments (lit ''format'') (PStr (lit ''standard'')) in
        py_bind (format_enum_of fmt) (\<lambda>format_enum.
        py_bind (enc_morse_encode enc txt format_enum) text_content))
      else if name = lit ''morse_decode'' then
        py_bind (getitem arguments (lit ''morse'')) (\<lambda>morse_code.
        py_bind (enc_morse_decode enc morse_code) text_content)
      else if name = lit ''morse_timing'' then
        py_bind (getitem arguments (lit ''text'')) (\<lambda>txt.
        let unit_ms = dict_get arguments (lit ''unit_ms'') (PInt 100) in
        py_bind (enc_morse_encode enc txt morse_encode_default_format) (\<lambda>morse_code.
        py_bind (enc_morse_to_timing enc morse_code unit_ms) (\<lambda>timing.
        text_content (PStr (json_dumps timing)))))
      else if name = lit ''braille_encode'' then
        py_bind (getitem arguments (lit ''text'')) (\<lambda>txt.
        py_bind (enc_braille_encode enc txt) text_content)
      else if name = lit ''braille_decode'' then
        py_bind (getitem arguments (lit ''braille'')) (\<lambda>braille_text.
        py_bind (enc_braille_decode enc braille_text) text_content)
      else if name = lit ''braille_punchcard'' then
        py_bind (getitem arguments (lit ''text'')) (\<lambda>txt.
        let cell_width = dict_get arguments (lit ''cell_width'') (PInt 4);
            cell_height = dict_get arguments (lit ''cell_height'') (PInt 6) in
        py_bind (enc_braille_to_punchcard_pattern enc txt cell_width cell_height) text_content)
      else if name = lit ''braille_binary_grid'' then
        py_bind (getitem arguments (lit ''text'')) (\<lambda>txt.
        py_bind (enc_braille_to_binary_grid enc txt) (\<lambda>grid.
        text_content (PStr (json_dumps grid))))
      else if name = lit ''transcode'' then
        py_bind (getitem arguments (lit ''input'')) (\<lambda>input_data.
        py_bind (getitem arguments (lit ''from_format'')) (\<lambda>from_fmt.
        py_bind (getitem arguments (lit ''to_format'')) (\<lambda>to_fmt.
        py_bind (transcode_to_text enc from_fmt input_data) (\<lambda>txt.
        py_bind (transcode_to_target enc to_fmt txt) text_content))))
      else Inr [TextContent (lit ''text'') (lit ''Unknown tool: '' @ name)])"

section \<open>The Morse codec\<close>

text \<open>
  Modelled from the spec: \<open>encoders/morse.py\<close> is not in the sources. Uppercasing
  before lookup; only the ASCII letters are mapped here (Python's \<open>str.upper\<close> also maps
  letters outside ASCII).
\<close>

definition upper_cp :: "nat \<Rightarrow> nat" where
  "upper_cp c = (if 97 \<le> c \<and> c \<le> 122 then c - 32 else c)"

text \<open>Modelled from the spec: \<open>text.upper()\<close> as the codecs of \<open>morse.py\<close> and \<open>braille.py\<close>
  apply it before the lookup, one code point at a time.\<close>

definition upper :: "pystr \<Rightarrow> pystr" where
  "upper s = map upper_cp s"

text \<open>
  Modelled from the spec: the Morse alphabet table of \<open>morse.py\<close> (A-Z, 0-9 and common
  punctuation, each a sequence of dots and dashes). The spec names period, comma and
  question mark and leaves the rest of the punctuation open; the international codes are
  taken for it.
\<close>

definition MORSE_CODE :: "(char \<times> string) list" where
  "MORSE_CODE =
     [(CHR ''A'', ''.-''), (CHR ''B'', ''-...''), (CHR ''C'', ''-.-.''), (CHR ''D'', ''-..''),
      (CHR ''E'', ''.''), (CHR ''F'', ''..-.''), (CHR ''G'', ''--.''), (CHR ''H'', ''....''),
      (CHR ''I'', ''..''), (CHR ''J'', ''.---''), (CHR ''K'', ''-.-''), (CHR ''L'', ''.-..''),
      (CHR ''M'', ''--''), (CHR ''N'', ''-.''), (CHR ''O'', ''---''), (CHR ''P'', ''.--.''),
      (CHR ''Q'', ''--.-''), (CHR ''R'', ''.-.''), (CHR ''S'', ''...''), (CHR ''T'', ''-''),
      (CHR ''U'', ''..-''), (CHR ''V'', ''...-''), (CHR ''W'', ''.--''), (CHR ''X'', ''-..-''),
      (CHR ''Y'', ''-.--''), (CHR ''Z'', ''--..''),
      (CHR ''0'', ''-----''), (CHR ''1'', ''.----''), (CHR ''2'', ''..---''),
      (CHR ''3'', ''...--''), (CHR ''4'', ''....-''), (CHR ''5'', ''.....''),
      (CHR ''6'', ''-....''), (CHR ''7'', ''--...''), (CHR ''8'', ''---..''),
      (CHR ''9'', ''----.''),
      (CHR ''.'', ''.-.-.-''), (CHR '','', ''--..--''), (CHR ''?'', ''..--..''),
      (CHR ''!'', ''-.-.--''), (CHR ''/'', ''-..-.''), (CHR ''('', ''-.--.''),
      (CHR '')'', ''-.--.-''), (CHR ''&'', ''.-...''), (CHR '':'', ''---...''),
      (CHR '';'', ''-.-.-.''), (CHR ''='', ''-...-''), (CHR ''+'', ''.-.-.''),
      (CHR ''-'', ''-....-''), (CHR ''_'', ''..--.-''), (CHR ''@'', ''.--.-.'')]"

text \<open>Modelled from the spec: the alphabet table of \<open>morse.py\<close> over code points.\<close>

definition morse_table :: "(nat \<times> pystr) list" where
  "morse_table = map (\<lambda>(c, m). (of_char c, lit m)) MORSE_CODE"

text \<open>
  Modelled from the spec: the per-character symbol of \<open>morse.encode\<close>. A space of the
  text, the word separator, is rendered as \<open>/\<close>; a character outside the alphabet has no
  symbol.
\<close>

definition morse_symbol :: "nat \<Rightarrow> pystr option" where
  "morse_symbol c = (if c = 32 then Some (lit ''/'') else map_of morse_table c)"

text \<open>
  Modelled from the spec: the STANDARD rendering of \<open>morse.encode\<close>. The text is
  uppercased, characters outside the alphabet are dropped (the fallback policy chosen
  here, the one the spec's guarantee about the alphabet-restricted projection needs), and
  the symbols are joined with one space.
\<close>

definition morse_encode_standard :: "pystr \<Rightarrow> pystr" where
  "morse_encode_standard t = join (lit '' '') (List.map_filter morse_symbol (upper t))"

text \<open>
  Modelled from the spec: the glyphs of the VISUAL and BINARY renderings. The spec leaves
  them open; the tool description in \<open>server.py\<close> lists "standard (.-), visual
  (U+2588 U+2584), binary (10)", read here as the dot glyph followed by the dash glyph.
\<close>

definition visual_glyph :: "nat \<Rightarrow> nat" where
  "visual_glyph c = (if c = 46 then 0x2588 else if c = 45 then 0x2584 else c)"

text \<open>Modelled from the spec: the glyph of a symbol in the BINARY rendering of \<open>morse.encode\<close>
  (missing with \<open>morse.py\<close>): \<open>1\<close> for a dot and \<open>0\<close> for a dash.\<close>

definition binary_glyph :: "nat \<Rightarrow> nat" where
  "binary_glyph c = (if c = 46 then 49 else if c = 45 then 48 else c)"

text \<open>Modelled from the spec: \<open>morse.encode(text, format)\<close> of \<open>morse.py\<close>.\<close>

definition morse_encode :: "pystr \<Rightarrow> MorseFormat \<Rightarrow> pystr" where
  "morse_encode t fmt =
     (case fmt of
        STANDARD \<Rightarrow> morse_encode_standard t
      | VISUAL \<Rightarrow> map visual_glyph (morse_encode_standard t)
      | BINARY \<Rightarrow> map binary_glyph (morse_encode_standard t))"

text \<open>\<open>s.split(sep)\<close> for a separator of one character: always at least one piece.\<close>

fun split_on :: "'a \<Rightarrow> 'a list \<Rightarrow> 'a list list" where
  "split_on sep [] = [[]]"
| "split_on sep (x # xs) =
     (if x = sep then [] # split_on sep xs
      else (case split_on sep xs of [] \<Rightarrow> [[x]] | p # ps \<Rightarrow> (x # p) # ps))"

text \<open>
  Modelled from the spec: the parsing step of \<open>morse.decode\<close> and \<open>morse.to_timing\<close>:
  "split on word separator, then on letter separator". Words are split at \<open>/\<close>, the
  letters of a word at spaces; empty pieces between spaces are no letters.
\<close>

definition morse_letters :: "pystr \<Rightarrow> pystr list" where
  "morse_letters w = filter (\<lambda>t. t \<noteq> []) (split_on 32 w)"

text \<open>Modelled from the spec: the words of a Morse string, each the list of its letters (the
  parsing of \<open>morse.decode\<close>, missing with \<open>morse.py\<close>).\<close>

definition morse_words :: "pystr \<Rightarrow> pystr list list" where
  "morse_words m = map morse_letters (split_on 47 m)"

text \<open>
  Modelled from the spec: the inverse alphabet table and the lookup of one token in
  \<open>morse.decode\<close>; an unknown token becomes the placeholder \<open>?\<close> (the spec: "a defined
  placeholder (e.g., skip or ?)").
\<close>

definition morse_inverse :: "(pystr \<times> nat) list" where
  "morse_inverse = map (\<lambda>(c, m). (m, c)) morse_table"

text \<open>Modelled from the spec: the lookup of one token in the inverse table by \<open>morse.decode\<close>, with
  the placeholder \<open>?\<close> (code point 63) for an unknown token.\<close>

definition morse_decode_token :: "pystr \<Rightarrow> nat" where
  "morse_decode_token tok = (case map_of morse_inverse tok of None \<Rightarrow> 63 | Some c \<Rightarrow> c)"

text \<open>
  Modelled from the spec: \<open>morse.decode(morse)\<close> of \<open>morse.py\<close>: the decoded words,
  separated by single spaces.
\<close>

definition morse_decode :: "pystr \<Rightarrow> pystr" where
  "morse_decode m = join (lit '' '') (map (map morse_decode_token) (morse_words m))"

text \<open>Modelled from the spec: the signal state of an entry of the timing schedule of
  \<open>morse.to_timing\<close> (missing with \<open>morse.py\<close>).\<close>

datatype signal = On | Off

text \<open>
  Modelled from the spec: \<open>morse.to_timing(morse, unit_ms)\<close> of \<open>morse.py\<close>. A dot is on
  for one unit and a dash for three; the gap is one unit between the symbols of a letter,
  three between letters and seven between words. Characters of a letter other than dot
  and dash give no entry, and a letter or word with no entry takes part in no gap.
\<close>

definition symbol_timing :: "int \<Rightarrow> nat \<Rightarrow> (signal \<times> int) list" where
  "symbol_timing unit_ms c =
     (if c = 46 then [(On, unit_ms)] else if c = 45 then [(On, 3 * unit_ms)] else [])"

text \<open>Modelled from the spec: the entries of one letter in \<open>morse.to_timing\<close>: its symbols, one unit
  of gap between them.\<close>

definition letter_timing :: "int \<Rightarrow> pystr \<Rightarrow> (signal \<times> int) list" where
  "letter_timing unit_ms l =
     join [(Off, unit_ms)] (filter (\<lambda>e. e \<noteq> []) (map (symbol_timing unit_ms) l))"

text \<open>Modelled from the spec: the entries of one word in \<open>morse.to_timing\<close>: its letters, three units
  of gap between them.\<close>

definition word_timing :: "int \<Rightarrow> pystr list \<Rightarrow> (signal \<times> int) list" where
  "word_timing unit_ms w =
     join [(Off, 3 * unit_ms)] (filter (\<lambda>e. e \<noteq> []) (map (letter_timing unit_ms) w))"

text \<open>Modelled from the spec: \<open>morse.to_timing(morse, unit_ms)\<close>: the words of the message, seven
  units of gap between them; nothing follows the last symbol.\<close>

definition morse_to_timing :: "pystr \<Rightarrow> int \<Rightarrow> (signal \<times> int) list" where
  "morse_to_timing m unit_ms =
     join [(Off, 7 * unit_ms)] (filter (\<lambda>e. e \<noteq> []) (map (word_timing unit_ms) (morse_words m)))"

section \<open>The Braille codec\<close>

text \<open>
  Modelled from the spec: the Braille alphabet table of \<open>encoders/braille.py\<close>, which is
  not in the sources. Each character has one 6-dot cell, given as its bit mask (dot 1 is
  bit 0, ..., dot 6 is bit 5); the code point of the cell is U+2800 plus the mask. Digits
  have direct cells of their own (the lowered cells), so that the table is injective as
  the spec requires.
\<close>

definition BRAILLE_MAP :: "(char \<times> nat) list" where
  "BRAILLE_MAP =
     [(CHR ''A'', 0x01), (CHR ''B'', 0x03), (CHR ''C'', 0x09), (CHR ''D'', 0x19),
      (CHR ''E'', 0x11), (CHR ''F'', 0x0B), (CHR ''G'', 0x1B), (CHR ''H'', 0x13),
      (CHR ''I'', 0x0A), (CHR ''J'', 0x1A), (CHR ''K'', 0x05), (CHR ''L'', 0x07),
      (CHR ''M'', 0x0D), (CHR ''N'', 0x1D), (CHR ''O'', 0x15), (CHR ''P'', 0x0F),
      (CHR ''Q'', 0x1F), (CHR ''R'', 0x17), (CHR ''S'', 0x0E), (CHR ''T'', 0x1E),
      (CHR ''U'', 0x25), (CHR ''V'', 0x27), (CHR ''W'', 0x3A), (CHR ''X'', 0x2D),
      (CHR ''Y'', 0x3D), (CHR ''Z'', 0x35),
      (CHR ''1'', 0x02), (CHR ''2'', 0x06), (CHR ''3'', 0x12), (CHR ''4'', 0x32),
      (CHR ''5'', 0x22), (CHR ''6'', 0x16), (CHR ''7'', 0x36), (CHR ''8'', 0x26),
      (CHR ''9'', 0x14), (CHR ''0'', 0x34),
      (CHR '' '', 0x00)]"

text \<open>Modelled from the spec: the alphabet table of \<open>braille.py\<close> over code points.\<close>

definition braille_table :: "(nat \<times> nat) list" where
  "braille_table = map (\<lambda>(c, m). (of_char c, m)) BRAILLE_MAP"

text \<open>
  Modelled from the spec: the dot masks of the eligible characters of a text, in order.
  The text is uppercased and characters without a cell are dropped (the same fallback
  policy as for Morse).
\<close>

definition braille_masks :: "pystr \<Rightarrow> nat list" where
  "braille_masks t = List.map_filter (map_of braille_table) (upper t)"

text \<open>Modelled from the spec: \<open>braille.encode(text)\<close> of \<open>braille.py\<close>.\<close>

definition braille_encode :: "pystr \<Rightarrow> pystr" where
  "braille_encode t = map (\<lambda>m. 0x2800 + m) (braille_masks t)"

text \<open>
  Modelled from the spec: \<open>braille.decode(braille)\<close> of \<open>braille.py\<close>: the inverse lookup
  of each code point, an unknown one becoming the placeholder \<open>?\<close>.
\<close>

definition braille_inverse :: "(nat \<times> nat) list" where
  "braille_inverse = map (\<lambda>(c, m). (0x2800 + m, c)) braille_table"

text \<open>Modelled from the spec: the lookup of one code point in the inverse table by
  \<open>braille.decode\<close>, with the placeholder \<open>?\<close> for an unknown one.\<close>

definition braille_decode_cell :: "nat \<Rightarrow> nat" where
  "braille_decode_cell cp = (case map_of braille_inverse cp of None \<Rightarrow> 63 | Some c \<Rightarrow> c)"

text \<open>Modelled from the spec: \<open>braille.decode(braille)\<close>, cell by cell.\<close>

definition braille_decode :: "pystr \<Rightarrow> pystr" where
  "braille_decode b = map braille_decode_cell b"

text \<open>
  Modelled from the spec: the dot at row \<open>r\<close> (0..2) and column \<open>c\<close> (0..1) of a cell:
  dots 1, 2, 3 are the left column from the top, dots 4, 5, 6 the right one.
\<close>

definition dot_raised :: "nat \<Rightarrow> nat \<Rightarrow> nat \<Rightarrow> bool" where
  "dot_raised cell r c = odd (cell div 2 ^ (r + 3 * c))"

text \<open>
  Modelled from the spec: \<open>braille.to_binary_grid(text)\<close> of \<open>braille.py\<close>: one row per
  dot row across all characters, two columns per character.
\<close>

definition braille_to_binary_grid :: "pystr \<Rightarrow> bool list list" where
  "braille_to_binary_grid t =
     map (\<lambda>r. concat (map (\<lambda>m. [dot_raised m r 0, dot_raised m r 1]) (braille_masks t))) [0, 1, 2]"

text \<open>
  Modelled from the spec: one line of the punchcard pattern. Each cell is a block of
  \<open>cell_width\<close> characters; the 2 x 3 dot grid is scaled to the block by repetition, a
  raised dot is \<open>#\<close> and a flat one \<open>.\<close> (the spec leaves the glyphs open), and the
  blocks are separated by one blank column.
\<close>

definition punchcard_line :: "nat \<Rightarrow> nat \<Rightarrow> nat list \<Rightarrow> nat \<Rightarrow> pystr" where
  "punchcard_line cell_width cell_height cells y =
     join (lit '' '')
       (map (\<lambda>m. map (\<lambda>x. if dot_raised m (y * 3 div cell_height) (x * 2 div cell_width)
                            then 35 else 46) [0..<cell_width]) cells)"

text \<open>
  Modelled from the spec: \<open>braille.to_punchcard_pattern(text, cell_width, cell_height)\<close> of
  \<open>braille.py\<close>. The spec requires \<open>cell_width \<ge> 2\<close> and \<open>cell_height \<ge> 3\<close> and says that
  smaller values should be rejected with a descriptive error before rendering.
\<close>

definition punchcard_size_error :: py_error where
  "punchcard_size_error =
     ValueError (lit ''cell_width must be at least 2 and cell_height at least 3'')"

text \<open>Modelled from the spec: \<open>braille.to_punchcard_pattern\<close>: the size check, then \<open>cell_height\<close>
  lines joined by newlines.\<close>

definition braille_to_punchcard_pattern :: "pystr \<Rightarrow> int \<Rightarrow> int \<Rightarrow> py_error + pystr" where
  "braille_to_punchcard_pattern t cell_width cell_height =
     (if cell_width < 2 \<or> cell_height < 3 then Inl punchcard_size_error
      else Inr (join [10]
             (map (punchcard_line (nat cell_width) (nat cell_height) (braille_masks t))
                [0..<nat cell_height])))"

section \<open>The modelled encoders behind the server\<close>

text \<open>
  Modelled from the spec: the seven functions as \<open>server.py\<close> calls them, on Python
  values. The spec's codec functions assume pre-validated types; a value of another type
  raises a TypeError here.
\<close>

definition not_a_str :: py_error where
  "not_a_str = TypeError (lit ''expected str'')"

text \<open>Modelled from the spec: the error of an encoder function of \<open>morse.py\<close> or \<open>braille.py\<close>
  called with a value that is not an integer where one is needed.\<close>

definition not_an_int :: py_error where
  "not_an_int = TypeError (lit ''expected int'')"

text \<open>Modelled from the spec: an encoder function of the missing modules that needs a \<open>str\<close>.\<close>

definition with_str :: "pyval \<Rightarrow> (pystr \<Rightarrow> py_error + 'a) \<Rightarrow> py_error + 'a" where
  "with_str v f = (case v of PStr s \<Rightarrow> f s | _ \<Rightarrow> Inl not_a_str)"

text \<open>Modelled from the spec: an encoder function of the missing modules that needs an \<open>int\<close>.\<close>

definition with_int :: "pyval \<Rightarrow> (int \<Rightarrow> py_error + 'a) \<Rightarrow> py_error + 'a" where
  "with_int v f = (case v of PInt i \<Rightarrow> f i | _ \<Rightarrow> Inl not_an_int)"

text \<open>Modelled from the spec: the value \<open>morse.to_timing\<close> returns, a list of (state, duration)
  tuples; the states are written "on" and "off" as in the spec's example.\<close>

definition timing_value :: "(signal \<times> int) list \<Rightarrow> pyval" where
  "timing_value es =
     PList (map (\<lambda>(s, d). PTuple [PStr (case s of On \<Rightarrow> lit ''on'' | Off \<Rightarrow> lit ''off''), PInt d]) es)"

text \<open>Modelled from the spec: the value \<open>braille.to_binary_grid\<close> returns, a list of rows of the
  bits 1 and 0.\<close>

definition grid_value :: "bool list list \<Rightarrow> pyval" where
  "grid_value g = PList (map (\<lambda>row. PList (map (\<lambda>b. PInt (if b then 1 else 0)) row)) g)"

text \<open>Modelled from the spec: the functions of \<open>encoders/morse.py\<close> and \<open>encoders/braille.py\<close> that
  \<open>server.py\<close> calls, put together.\<close>

definition spec_encoders :: encoders where
  "spec_encoders =
     \<lparr> enc_morse_encode = (\<lambda>v fmt. with_str v (\<lambda>s. Inr (PStr (morse_encode s fmt)))),
       enc_morse_decode = (\<lambda>v. with_str v (\<lambda>s. Inr (PStr (morse_decode s)))),
       enc_morse_to_timing = (\<lambda>v u. with_str v (\<lambda>s. with_int u (\<lambda>i.
          Inr (timing_value (morse_to_timing s i))))),
       enc_braille_encode = (\<lambda>v. with_str v (\<lambda>s. Inr (PStr (braille_encode s)))),
       enc_braille_decode = (\<lambda>v. with_str v (\<lambda>s. Inr (PStr (braille_decode s)))),
       enc_braille_to_punchcard_pattern = (\<lambda>v w h. with_str v (\<lambda>s. with_int w (\<lambda>cw.
          with_int h (\<lambda>ch.
            py_bind (braille_to_punchcard_pattern s cw ch) (\<lambda>p. Inr (PStr p)))))),
       enc_braille_to_binary_grid = (\<lambda>v. with_str v (\<lambda>s.
          Inr (grid_value (braille_to_binary_grid s)))) \<rparr>"

section \<open>The vocabulary of the codec properties\<close>

text \<open>
  The Morse alphabet (the characters \<open>morse.encode\<close> keeps), and the characters of a
  "supported text": letters, digits and spaces.
\<close>

definition in_morse_alphabet :: "nat \<Rightarrow> bool" where
  "in_morse_alphabet c \<longleftrightarrow> c = 32 \<or> c \<in> set (map fst morse_table)"

definition morse_text_char :: "nat \<Rightarrow> bool" where
  "morse_text_char c \<longleftrightarrow>
     (65 \<le> c \<and> c \<le> 90) \<or> (97 \<le> c \<and> c \<le> 122) \<or> (48 \<le> c \<and> c \<le> 57) \<or> c = 32"

text \<open>
  A Morse message in the STANDARD separator convention: words of letters, the letters of a
  word separated by one space and the words by \<open>" / "\<close>. A letter is a non-empty sequence
  of dots and dashes; a token is any non-empty string without a separator.
\<close>

definition morse_standard :: "pystr list list \<Rightarrow> pystr" where
  "morse_standard ws = join (lit '' / '') (map (join (lit '' '')) ws)"

definition morse_letter_ok :: "pystr \<Rightarrow> bool" where
  "morse_letter_ok l \<longleftrightarrow> l \<noteq> [] \<and> list_all (\<lambda>c. c = 46 \<or> c = 45) l"

definition morse_message_ok :: "pystr list list \<Rightarrow> bool" where
  "morse_message_ok ws \<longleftrightarrow> ws \<noteq> [] \<and> list_all (\<lambda>w. w \<noteq> [] \<and> list_all morse_letter_ok w) ws"

definition morse_token_ok :: "pystr \<Rightarrow> bool" where
  "morse_token_ok tok \<longleftrightarrow> tok \<noteq> [] \<and> 32 \<notin> set tok \<and> 47 \<notin> set tok"

text \<open>
  The schedule the spec describes for such a message: an on-entry per symbol, a gap of one
  unit between the symbols of a letter, of three units between letters and of seven units
  between words, and nothing after the last symbol.
\<close>

definition on_entry :: "int \<Rightarrow> nat \<Rightarrow> signal \<times> int" where
  "on_entry unit_ms c = (On, if c = 46 then unit_ms else 3 * unit_ms)"

definition timing_schedule :: "int \<Rightarrow> pystr list list \<Rightarrow> (signal \<times> int) list" where
  "timing_schedule unit_ms ws =
     join [(Off, 7 * unit_ms)]
       (map (\<lambda>w. join [(Off, 3 * unit_ms)]
          (map (\<lambda>l. join [(Off, unit_ms)] (map (\<lambda>c. [on_entry unit_ms c]) l)) w)) ws)"

text \<open>
  The eligible characters of a text for Braille: those with a cell, after uppercasing.
\<close>

definition braille_eligible :: "nat \<Rightarrow> bool" where
  "braille_eligible c \<longleftrightarrow> c \<in> set (map fst braille_table)"

definition eligible_character_count :: "pystr \<Rightarrow> nat" where
  "eligible_character_count t = length (filter braille_eligible (upper t))"

section \<open>The transcode operation as the spec words it\<close>

text \<open>
  The spec's description of the orchestrator, to be compared with the \<open>transcode\<close> branch
  of \<open>call_tool\<close>: decode the source format to text, then encode the text to the target
  format.
\<close>

datatype source_format = FROM_TEXT | FROM_MORSE | FROM_BRAILLE

datatype target_format = TO_TEXT | TO_MORSE | TO_BRAILLE | TO_MORSE_VISUAL | TO_PUNCHCARD

fun source_format_name :: "source_format \<Rightarrow> pystr" where
  "source_format_name FROM_TEXT = lit ''text''"
| "source_format_name FROM_MORSE = lit ''morse''"
| "source_format_name FROM_BRAILLE = lit ''braille''"

fun target_format_name :: "target_format \<Rightarrow> pystr" where
  "target_format_name TO_TEXT = lit ''text''"
| "target_format_name TO_MORSE = lit ''morse''"
| "target_format_name TO_BRAILLE = lit ''braille''"
| "target_format_name TO_MORSE_VISUAL = lit ''morse_visual''"
| "target_format_name TO_PUNCHCARD = lit ''punchcard''"

fun decode_stage :: "encoders \<Rightarrow> source_format \<Rightarrow> pyval \<Rightarrow> py_error + pyval" where
  "decode_stage enc FROM_TEXT v = Inr v"
| "decode_stage enc FROM_MORSE v = enc_morse_decode enc v"
| "decode_stage enc FROM_BRAILLE v = enc_braille_decode enc v"

fun encode_stage :: "encoders \<Rightarrow> target_format \<Rightarrow> pyval \<Rightarrow> py_error + pyval" where
  "encode_stage enc TO_TEXT v = Inr v"
| "encode_stage enc TO_MORSE v = enc_morse_encode enc v STANDARD"
| "encode_stage enc TO_MORSE_VISUAL v = enc_morse_encode enc v VISUAL"
| "encode_stage enc TO_BRAILLE v = enc_braille_encode enc v"
| "encode_stage enc TO_PUNCHCARD v =
     enc_braille_to_punchcard_pattern enc v punchcard_default_cell_width punchcard_default_cell_height"

definition two_stage_transcode ::
  "encoders \<Rightarrow> source_format \<Rightarrow> target_format \<Rightarrow> pyval \<Rightarrow> py_error + pyval" where
  "two_stage_transcode enc f t v = py_bind (decode_stage enc f v) (encode_stage enc t)"

text \<open>A \<open>transcode\<close> request with exactly its three required arguments.\<close>

definition transcode :: "encoders \<Rightarrow> pyval \<Rightarrow> pystr \<Rightarrow> pystr \<Rightarrow> py_error + TextContent list" where
  "transcode enc input_data from_fmt to_fmt =
     call_tool enc (lit ''transcode'')
       [lit ''input'' \<mapsto> input_data, lit ''from_format'' \<mapsto> PStr from_fmt,
        lit ''to_format'' \<mapsto> PStr to_fmt]"

text \<open>The string a \<open>transcode\<close> call returns: the text of its single content.\<close>

definition transcode_str :: "encoders \<Rightarrow> pyval \<Rightarrow> pystr \<Rightarrow> pystr \<Rightarrow> py_error + pyval" where
  "transcode_str enc input_data from_fmt to_fmt =
     (case transcode enc input_data from_fmt to_fmt of
        Inl e \<Rightarrow> Inl e
      | Inr cs \<Rightarrow> (case cs of [c] \<Rightarrow> Inr (PStr (tc_text c)) | _ \<Rightarrow> Inl ValidationError))"

section \<open>Properties of the dispatcher\<close>

lemma lit_eq_iff: "lit a = lit b \<longleftrightarrow> a = b"
  by (simp add: lit_def inj_map_eq_map[OF inj_of_char])

text \<open>The definitions that evaluate the modelled encoders on a concrete input.\<close>

lemmas spec_encoders_eval =
  spec_encoders_def with_str_def with_int_def py_bind_def text_content_def
  morse_encode_def morse_encode_standard_def morse_symbol_def
  morse_decode_def morse_words_def morse_letters_def morse_decode_token_def
  morse_inverse_def morse_table_def MORSE_CODE_def
  braille_encode_def braille_decode_def braille_decode_cell_def braille_masks_def
  braille_inverse_def braille_table_def BRAILLE_MAP_def
  upper_def upper_cp_def List.map_filter_def lit_def

lemma lit_append: "lit a @ lit b = lit (a @ b)"
  by (simp add: lit_def)

text \<open>
  C8. For every tool name outside the eight declared operations, \<open>call_tool\<close> returns
  (and does not raise) a single text content "Unknown tool: " followed by the name,
  whatever the arguments and the encoders are.
\<close>

theorem call_tool_unknown_name:
  assumes "name \<notin> set tool_names"
  shows "call_tool enc name arguments =
           Inr [TextContent (lit ''text'') (lit ''Unknown tool: '' @ name)]"
  using assms by (simp add: call_tool_def tool_names_def)

theorem call_tool_unknown_name_witness:
  "lit ''sstv_encode'' \<notin> set tool_names \<and>
   call_tool spec_encoders (lit ''sstv_encode'') Map.empty =
     Inr [TextContent (lit ''text'') (lit ''Unknown tool: sstv_encode'')]"
proof -
  have h: "lit ''sstv_encode'' \<notin> set tool_names"
    by (simp add: tool_names_def lit_eq_iff)
  show ?thesis
    using h call_tool_unknown_name[OF h, of spec_encoders Map.empty]
    by (simp add: lit_append)
qed

text \<open>
  The \<open>transcode\<close> branch, for any encoders: the request needs its three arguments, and
  the result is the source's two stages followed by the text content.
\<close>

lemma call_tool_transcode:
  assumes "arguments (lit ''input'') = Some v"
    and "arguments (lit ''from_format'') = Some f"
    and "arguments (lit ''to_format'') = Some t"
  shows "call_tool enc (lit ''transcode'') arguments =
           py_bind (transcode_to_text enc f v) (\<lambda>txt.
           py_bind (transcode_to_target enc t txt) text_content)"
  using assms by (simp add: call_tool_def lit_eq_iff getitem_def py_bind_def)

lemma py_bind_assoc: "py_bind (py_bind m f) g = py_bind m (\<lambda>x. py_bind (f x) g)"
  by (simp add: py_bind_def split: sum.splits)

lemma transcode_to_text_stage:
  "transcode_to_text enc (PStr (source_format_name f)) v = decode_stage enc f v"
  by (cases f) (simp_all add: transcode_to_text_def lit_eq_iff)

lemma transcode_to_target_stage:
  "transcode_to_target enc (PStr (target_format_name t)) v = encode_stage enc t v"
  by (cases t)
    (simp_all add: transcode_to_target_def lit_eq_iff morse_encode_default_format_def)

text \<open>
  C2. For every input and every \<open>from_format\<close> in text, morse, braille and \<open>to_format\<close> in
  text, morse, braille, morse\_visual, punchcard, the \<open>transcode\<close> tool is the two-stage
  composition: decode the input to text (\<open>morse.decode\<close>, \<open>braille.decode\<close> or nothing),
  then encode the text to the target (\<open>morse.encode\<close> STANDARD or VISUAL,
  \<open>braille.encode\<close>, \<open>braille.to_punchcard_pattern\<close> or nothing), and the outcome becomes
  the text content. An error of a stage is the error of the call.
\<close>

theorem transcode_is_two_stage_composition:
  assumes "arguments (lit ''input'') = Some v"
    and "arguments (lit ''from_format'') = Some (PStr (source_format_name f))"
    and "arguments (lit ''to_format'') = Some (PStr (target_format_name t))"
  shows "call_tool enc (lit ''transcode'') arguments =
           py_bind (two_stage_transcode enc f t v) text_content"
  by (simp add: call_tool_transcode[OF assms] two_stage_transcode_def py_bind_assoc
      transcode_to_text_stage transcode_to_target_stage)

theorem transcode_is_two_stage_composition_witness:
  "call_tool spec_encoders (lit ''transcode'')
     [lit ''input'' \<mapsto> PStr (lit ''... --- ...''),
      lit ''from_format'' \<mapsto> PStr (lit ''morse''),
      lit ''to_format'' \<mapsto> PStr (lit ''braille'')] =
   py_bind (two_stage_transcode spec_encoders FROM_MORSE TO_BRAILLE (PStr (lit ''... --- ...'')))
     text_content \<and>
   py_bind (two_stage_transcode spec_encoders FROM_MORSE TO_BRAILLE (PStr (lit ''... --- ...'')))
     text_content = Inr [TextContent (lit ''text'') [0x280E, 0x2815, 0x280E]]"
proof -
  have "py_bind (two_stage_transcode spec_encoders FROM_MORSE TO_BRAILLE
      (PStr (lit ''... --- ...''))) text_content =
    Inr [TextContent (lit ''text'') [0x280E, 0x2815, 0x280E]]"
    by (simp add: two_stage_transcode_def spec_encoders_eval)
  then show ?thesis
    using transcode_is_two_stage_composition[of
      "[lit ''input'' \<mapsto> PStr (lit ''... --- ...''),
        lit ''from_format'' \<mapsto> PStr (lit ''morse''),
        lit ''to_format'' \<mapsto> PStr (lit ''braille'')]"
      "PStr (lit ''... --- ...'')" FROM_MORSE TO_BRAILLE spec_encoders]
    by (simp add: lit_eq_iff)
qed

text \<open>
  C10. For every input string \<open>s\<close>, \<open>transcode(s, "text", "text")\<close> returns \<open>s\<close> unchanged:
  neither stage touches it, whatever the encoders are.
\<close>

theorem transcode_text_to_text_identity:
  assumes "arguments (lit ''input'') = Some (PStr s)"
    and "arguments (lit ''from_format'') = Some (PStr (lit ''text''))"
    and "arguments (lit ''to_format'') = Some (PStr (lit ''text''))"
  shows "call_tool enc (lit ''transcode'') arguments = Inr [TextContent (lit ''text'') s]"
  by (simp add: call_tool_transcode[OF assms] transcode_to_text_def transcode_to_target_def
      lit_eq_iff py_bind_def text_content_def)

theorem transcode_text_to_text_identity_witness:
  "call_tool spec_encoders (lit ''transcode'')
     [lit ''input'' \<mapsto> PStr (lit ''Hello, world #1''),
      lit ''from_format'' \<mapsto> PStr (lit ''text''),
      lit ''to_format'' \<mapsto> PStr (lit ''text'')] =
   Inr [TextContent (lit ''text'') (lit ''Hello, world #1'')]"
  using transcode_text_to_text_identity[of
      "[lit ''input'' \<mapsto> PStr (lit ''Hello, world #1''),
        lit ''from_format'' \<mapsto> PStr (lit ''text''),
        lit ''to_format'' \<mapsto> PStr (lit ''text'')]"
      "lit ''Hello, world #1''" spec_encoders]
  by (simp add: lit_eq_iff)

text \<open>
  The \<open>morse_encode\<close> branch, for any encoders: the text argument is required, the
  format is looked up in the dictionary literal (which hashes it), and the encoder's
  result becomes the text content.
\<close>

lemma call_tool_morse_encode:
  assumes "arguments (lit ''text'') = Some txt"
  shows "call_tool enc (lit ''morse_encode'') arguments =
           py_bind (format_enum_of (dict_get arguments (lit ''format'') (PStr (lit ''standard''))))
             (\<lambda>format_enum. py_bind (enc_morse_encode enc txt format_enum) text_content)"
  using assms by (simp add: call_tool_def getitem_def py_bind_def)

text \<open>
  C9, as amended. For the \<open>morse_encode\<close> tool, an absent format argument, and any
  hashable format value (a string, a number, a boolean or null) other than "standard",
  "visual" and "binary", is treated as STANDARD: the call is
  \<open>morse.encode(text, MorseFormat.STANDARD)\<close> and no error comes from the format value.
\<close>

theorem morse_encode_format_fallback:
  assumes "arguments (lit ''text'') = Some txt"
    and "arguments (lit ''format'') = None \<or>
         (\<exists>fmt. arguments (lit ''format'') = Some fmt \<and> hashable fmt \<and>
            fmt \<notin> {PStr (lit ''standard''), PStr (lit ''visual''), PStr (lit ''binary'')})"
  shows "call_tool enc (lit ''morse_encode'') arguments =
           py_bind (enc_morse_encode enc txt STANDARD) text_content"
proof -
  have branch: "call_tool enc (lit ''morse_encode'') arguments =
      py_bind (format_enum_of (dict_get arguments (lit ''format'') (PStr (lit ''standard''))))
        (\<lambda>format_enum. py_bind (enc_morse_encode enc txt format_enum) text_content)"
    using assms(1) by (rule call_tool_morse_encode)
  from assms(2) show ?thesis
    unfolding branch
    by (auto simp add: dict_get_def format_enum_of_def format_table_def py_bind_def lit_eq_iff)
qed

theorem morse_encode_format_fallback_witness:
  "call_tool spec_encoders (lit ''morse_encode'')
     [lit ''text'' \<mapsto> PStr (lit ''SOS''), lit ''format'' \<mapsto> PStr (lit ''loud'')] =
   Inr [TextContent (lit ''text'') (lit ''... --- ...'')] \<and>
   call_tool spec_encoders (lit ''morse_encode'') [lit ''text'' \<mapsto> PStr (lit ''SOS'')] =
   Inr [TextContent (lit ''text'') (lit ''... --- ...'')]"
proof -
  have e: "py_bind (enc_morse_encode spec_encoders (PStr (lit ''SOS'')) STANDARD) text_content =
      Inr [TextContent (lit ''text'') (lit ''... --- ...'')]"
    by (simp add: spec_encoders_eval)
  have "call_tool spec_encoders (lit ''morse_encode'')
     [lit ''text'' \<mapsto> PStr (lit ''SOS''), lit ''format'' \<mapsto> PStr (lit ''loud'')] =
     py_bind (enc_morse_encode spec_encoders (PStr (lit ''SOS'')) STANDARD) text_content"
    by (rule morse_encode_format_fallback) (simp_all add: lit_eq_iff)
  moreover have "call_tool spec_encoders (lit ''morse_encode'')
     [lit ''text'' \<mapsto> PStr (lit ''SOS'')] =
     py_bind (enc_morse_encode spec_encoders (PStr (lit ''SOS'')) STANDARD) text_content"
    by (rule morse_encode_format_fallback) (simp_all add: lit_eq_iff)
  ultimately show ?thesis
    using e by simp
qed

text \<open>
  C9, the claim as stated fails: a format value that is a JSON array is outside the
  three names, and the lookup in the dictionary literal raises TypeError for it.
\<close>

theorem morse_encode_format_unhashable_counterexample:
  "PList [] \<notin> {PStr (lit ''standard''), PStr (lit ''visual''), PStr (lit ''binary'')} \<and>
   call_tool spec_encoders (lit ''morse_encode'')
     [lit ''text'' \<mapsto> PStr (lit ''SOS''), lit ''format'' \<mapsto> PList []] =
   Inl (TypeError (lit ''unhashable type''))"
  by (simp add: call_tool_def getitem_def dict_get_def format_enum_of_def py_bind_def lit_eq_iff)

section \<open>Splitting and joining\<close>

text \<open>\<open>split_on\<close> and \<open>join\<close> are inverse, and how the Morse parser reads a string from
  its left end.\<close>

lemma join_Cons: "join sep (x # xs) = (if xs = [] then x else x @ sep @ join sep xs)"
  by (cases xs) simp_all

lemma split_on_not_Nil: "split_on sep xs \<noteq> []"
  by (induction xs) (auto split: list.splits)

lemma split_on_Cons:
  "split_on sep (x # xs) =
     (if x = sep then [] # split_on sep xs
      else (x # hd (split_on sep xs)) # tl (split_on sep xs))"
  using split_on_not_Nil[of sep xs] by (cases "split_on sep xs") simp_all

lemma join_split_on: "join [sep] (split_on sep xs) = xs"
proof (induction xs)
  case Nil
  show ?case by simp
next
  case (Cons x xs)
  obtain p ps where ps: "split_on sep xs = p # ps"
    using split_on_not_Nil[of sep xs] by (cases "split_on sep xs") auto
  with Cons show ?case
    by (cases ps) (auto simp add: join_Cons)
qed

lemma split_on_pieces: "p \<in> set (split_on sep xs) \<Longrightarrow> set p \<subseteq> set xs - {sep}"
proof (induction xs arbitrary: p)
  case Nil
  then show ?case by simp
next
  case (Cons x xs)
  obtain q qs where qs: "split_on sep xs = q # qs"
    using split_on_not_Nil[of sep xs] by (cases "split_on sep xs") auto
  have q: "set q \<subseteq> set xs - {sep}"
    using Cons.IH[of q] qs by simp
  have r: "\<And>r. r \<in> set qs \<Longrightarrow> set r \<subseteq> set xs - {sep}"
    using Cons.IH qs by simp
  show ?case
  proof (cases "x = sep")
    case True
    with Cons.prems qs have "p = [] \<or> p = q \<or> p \<in> set qs" by auto
    with q r show ?thesis by auto
  next
    case False
    with Cons.prems qs have "p = x # q \<or> p \<in> set qs" by auto
    then show ?thesis
    proof
      assume "p = x # q"
      with False q show ?thesis by auto
    next
      assume "p \<in> set qs"
      from r[OF this] show ?thesis by auto
    qed
  qed
qed

lemma split_on_append:
  "sep \<notin> set tok \<Longrightarrow>
   split_on sep (tok @ r) = (tok @ hd (split_on sep r)) # tl (split_on sep r)"
  using split_on_not_Nil[of sep r]
  by (induction tok) (auto simp add: split_on_Cons)

lemma split_on_no_sep: "sep \<notin> set tok \<Longrightarrow> split_on sep tok = [tok]"
  using split_on_append[of sep tok "[]"] by simp

lemma morse_letters_Nil: "morse_letters [] = []"
  by (simp add: morse_letters_def)

lemma morse_letters_space: "morse_letters (32 # r) = morse_letters r"
  by (simp add: morse_letters_def)

lemma morse_letters_token:
  "tok \<noteq> [] \<Longrightarrow> 32 \<notin> set tok \<Longrightarrow> morse_letters tok = [tok]"
  by (simp add: morse_letters_def split_on_no_sep)

lemma morse_letters_token_space:
  "tok \<noteq> [] \<Longrightarrow> 32 \<notin> set tok \<Longrightarrow> morse_letters (tok @ 32 # r) = tok # morse_letters r"
  by (simp add: morse_letters_def split_on_append)

lemma morse_words_Nil: "morse_words [] = [[]]"
  by (simp add: morse_words_def morse_letters_Nil)

lemma morse_words_slash: "morse_words (47 # r) = [] # morse_words r"
  by (simp add: morse_words_def morse_letters_Nil)

lemma morse_words_space: "morse_words (32 # r) = morse_words r"
  using split_on_not_Nil[of 47 r]
  by (cases "split_on 47 r") (simp_all add: morse_words_def morse_letters_space)

lemma morse_words_not_Nil: "morse_words m \<noteq> []"
  by (simp add: morse_words_def split_on_not_Nil)

lemma morse_words_token:
  "tok \<noteq> [] \<Longrightarrow> 32 \<notin> set tok \<Longrightarrow> 47 \<notin> set tok \<Longrightarrow> morse_words tok = [[tok]]"
  by (simp add: morse_words_def split_on_no_sep morse_letters_token)

lemma morse_words_token_space:
  assumes "tok \<noteq> []" "32 \<notin> set tok" "47 \<notin> set tok"
  shows "morse_words (tok @ 32 # r) = (tok # hd (morse_words r)) # tl (morse_words r)"
proof -
  obtain p ps where ps: "split_on 47 r = p # ps"
    using split_on_not_Nil[of 47 r] by (cases "split_on 47 r") auto
  have "split_on 47 (tok @ 32 # r) = (tok @ 32 # p) # ps"
    using assms(3) ps by (simp add: split_on_append)
  then show ?thesis
    using assms(1,2) ps by (simp add: morse_words_def morse_letters_token_space)
qed


section \<open>Properties of the Morse codec\<close>

lemma morse_table_wf:
  "list_all (\<lambda>(c, m). m \<noteq> [] \<and> 32 \<notin> set m \<and> 47 \<notin> set m) morse_table"
  by (simp add: morse_table_def MORSE_CODE_def lit_def)

lemma morse_table_code:
  assumes "map_of morse_table c = Some m"
  shows "m \<noteq> [] \<and> 32 \<notin> set m \<and> 47 \<notin> set m"
proof -
  have "(c, m) \<in> set morse_table"
    using assms by (rule map_of_SomeD)
  with morse_table_wf show ?thesis
    by (auto simp add: list_all_iff)
qed

lemma inj_lit: "inj lit"
  by (rule injI) (simp add: lit_eq_iff)

lemma morse_codes_distinct: "distinct (map snd morse_table)"
proof -
  have "distinct (map snd MORSE_CODE)"
    by (simp add: MORSE_CODE_def)
  then have "distinct (map lit (map snd MORSE_CODE))"
    unfolding distinct_map[of lit] by (simp add: inj_on_def lit_eq_iff)
  moreover have "map snd morse_table = map lit (map snd MORSE_CODE)"
    by (simp add: morse_table_def case_prod_unfold comp_def)
  ultimately show ?thesis by simp
qed

lemma morse_decode_token_code:
  assumes "map_of morse_table c = Some m"
  shows "morse_decode_token m = c"
proof -
  have "(c, m) \<in> set morse_table"
    using assms by (rule map_of_SomeD)
  then have "(m, c) \<in> set morse_inverse"
    by (force simp add: morse_inverse_def)
  moreover have "distinct (map fst morse_inverse)"
    using morse_codes_distinct by (simp add: morse_inverse_def case_prod_unfold comp_def)
  ultimately have "map_of morse_inverse m = Some c"
    by (simp add: map_of_is_SomeI)
  then show ?thesis
    by (simp add: morse_decode_token_def)
qed


lemma lit_space: "lit '' '' = [32]"
  by (simp add: lit_def)

lemma in_morse_alphabet_symbol: "in_morse_alphabet c \<longleftrightarrow> morse_symbol c \<noteq> None"
  using map_of_eq_None_iff[of morse_table c]
  by (cases "map_of morse_table c") (auto simp add: in_morse_alphabet_def morse_symbol_def)

lemma morse_words_encode:
  assumes "\<forall>c\<in>set w. morse_symbol c \<noteq> None"
  shows "morse_words (join [32] (map (\<lambda>c. the (morse_symbol c)) w)) =
           map (map (\<lambda>c. the (map_of morse_table c))) (split_on 32 w)"
  using assms
proof (induction w)
  case Nil
  show ?case by (simp add: morse_words_Nil)
next
  case (Cons c w)
  let ?rest = "join [32] (map (\<lambda>c. the (morse_symbol c)) w)"
  let ?S = "split_on 32 w"
  from Cons.prems have "\<forall>c\<in>set w. morse_symbol c \<noteq> None"
    by simp
  then have IH: "morse_words ?rest = map (map (\<lambda>c. the (map_of morse_table c))) ?S"
    by (rule Cons.IH)
  have S: "?S \<noteq> []" by (rule split_on_not_Nil)
  show ?case
  proof (cases "c = 32")
    case True
    then have sym: "the (morse_symbol c) = [47]"
      by (simp add: morse_symbol_def lit_def)
    show ?thesis
    proof (cases "w = []")
      case True
      with \<open>c = 32\<close> sym show ?thesis
        by (simp add: morse_words_slash morse_words_Nil)
    next
      case False
      with \<open>c = 32\<close> sym IH show ?thesis
        by (simp add: join_Cons morse_words_slash morse_words_space)
    qed
  next
    case False
    from Cons.prems obtain m where m: "map_of morse_table c = Some m"
      using False by (auto simp add: morse_symbol_def)
    then have sym: "the (morse_symbol c) = m"
      using False by (simp add: morse_symbol_def)
    note wf = morse_table_code[OF m]
    show ?thesis
    proof (cases "w = []")
      case True
      with False sym m wf show ?thesis
        by (simp add: morse_words_token)
    next
      case w: False
      have "morse_words (m @ 32 # ?rest) = (m # hd (morse_words ?rest)) # tl (morse_words ?rest)"
        using wf by (simp add: morse_words_token_space)
      moreover obtain p ps where "?S = p # ps"
        using S by (cases ?S) auto
      ultimately show ?thesis
        using w False sym m IH by (simp add: join_Cons)
    qed
  qed
qed

lemma morse_decode_encoded_symbols:
  assumes "\<forall>c\<in>set w. morse_symbol c \<noteq> None"
  shows "morse_decode (join [32] (map (\<lambda>c. the (morse_symbol c)) w)) = w"
proof -
  have piece: "map (\<lambda>c. morse_decode_token (the (map_of morse_table c))) p = p"
    if "p \<in> set (split_on 32 w)" for p
  proof -
    have "morse_decode_token (the (map_of morse_table c)) = c" if "c \<in> set p" for c
    proof -
      from split_on_pieces[OF \<open>p \<in> set (split_on 32 w)\<close>] that
      have "c \<in> set w" and "c \<noteq> 32" by auto
      with assms obtain m where "map_of morse_table c = Some m"
        by (auto simp add: morse_symbol_def)
      then show ?thesis by (simp add: morse_decode_token_code)
    qed
    then show ?thesis by (simp add: map_idI)
  qed
  have "morse_decode (join [32] (map (\<lambda>c. the (morse_symbol c)) w)) =
        join [32] (map (map (\<lambda>c. morse_decode_token (the (map_of morse_table c)))) (split_on 32 w))"
    unfolding morse_decode_def morse_words_encode[OF assms] lit_space by (simp add: comp_def)
  also have "\<dots> = join [32] (split_on 32 w)"
    using piece by (simp add: map_idI)
  finally show ?thesis by (simp add: join_split_on)
qed

lemma morse_roundtrip_projection:
  "morse_decode (morse_encode t STANDARD) = filter in_morse_alphabet (upper t)"
proof -
  let ?w = "filter (\<lambda>c. morse_symbol c \<noteq> None) (upper t)"
  have "morse_encode t STANDARD = join [32] (map (\<lambda>c. the (morse_symbol c)) ?w)"
    by (simp add: morse_encode_def morse_encode_standard_def List.map_filter_def lit_space comp_def)
  moreover have "morse_decode (join [32] (map (\<lambda>c. the (morse_symbol c)) ?w)) = ?w"
    by (rule morse_decode_encoded_symbols) simp
  ultimately show ?thesis
    by (simp add: in_morse_alphabet_symbol[abs_def])
qed

lemma letters_digits_in_table:
  "list_all (\<lambda>c. c \<in> set (map fst morse_table)) ([48..<58] @ [65..<91])"
  by code_simp

lemma morse_text_char_upper:
  assumes "morse_text_char c"
  shows "in_morse_alphabet (upper_cp c)"
proof -
  from assms have "upper_cp c = 32 \<or> (48 \<le> upper_cp c \<and> upper_cp c < 58)
      \<or> (65 \<le> upper_cp c \<and> upper_cp c < 91)"
    by (auto simp add: morse_text_char_def upper_cp_def)
  then have "upper_cp c = 32 \<or> upper_cp c \<in> set ([48..<58] @ [65..<91])"
    by (simp only: set_append set_upt Un_iff atLeastLessThan_iff)
  with letters_digits_in_table show ?thesis
    unfolding in_morse_alphabet_def list_all_iff by blast
qed

lemma morse_roundtrip_text:
  assumes "\<forall>c\<in>set t. morse_text_char c"
  shows "morse_decode (morse_encode t STANDARD) = upper t"
proof -
  have "filter in_morse_alphabet (upper t) = upper t"
    using assms by (simp add: upper_def morse_text_char_upper)
  then show ?thesis by (simp add: morse_roundtrip_projection)
qed

text \<open>
  C1. \<open>morse.decode(morse.encode(t, STANDARD))\<close> is, for every text, the uppercased text
  restricted to the Morse alphabet; for a text of letters, digits and spaces only it is
  the uppercased text.
\<close>

theorem morse_decode_encode_roundtrip:
  "morse_decode (morse_encode t STANDARD) = filter in_morse_alphabet (upper t) \<and>
   ((\<forall>c\<in>set t. morse_text_char c) \<longrightarrow> morse_decode (morse_encode t STANDARD) = upper t)"
  using morse_roundtrip_projection morse_roundtrip_text by blast

theorem morse_decode_encode_roundtrip_witness:
  "list_all morse_text_char (lit ''Sos 73'') \<and>
   morse_encode (lit ''Sos 73'') STANDARD = lit ''... --- ... / --... ...--'' \<and>
   morse_decode (morse_encode (lit ''Sos 73'') STANDARD) = lit ''SOS 73'' \<and>
   morse_decode (morse_encode (lit ''a#b'') STANDARD) = lit ''AB''"
proof -
  have h: "list_all morse_text_char (lit ''Sos 73'')"
    by (simp add: lit_def morse_text_char_def)
  then have "\<forall>c\<in>set (lit ''Sos 73''). morse_text_char c"
    by (simp only: list_all_iff)
  with morse_decode_encode_roundtrip[of "lit ''Sos 73''"]
  have "morse_decode (morse_encode (lit ''Sos 73'') STANDARD) = upper (lit ''Sos 73'')"
    by blast
  moreover have "upper (lit ''Sos 73'') = lit ''SOS 73''"
    by (simp add: upper_def upper_cp_def lit_def)
  moreover have "morse_encode (lit ''Sos 73'') STANDARD = lit ''... --- ... / --... ...--''"
    by (simp add: spec_encoders_eval)
  moreover have "morse_decode (morse_encode (lit ''a#b'') STANDARD) = lit ''AB''"
    using morse_decode_encode_roundtrip[of "lit ''a#b''"]
    by (simp add: in_morse_alphabet_def morse_table_def MORSE_CODE_def upper_def upper_cp_def lit_def)
  ultimately show ?thesis
    using h by simp
qed

section \<open>Properties of the timing schedule\<close>

lemma lit_word_gap: "lit '' / '' = [32, 47, 32]"
  by (simp add: lit_def)

lemma morse_letter_ok_token: "morse_letter_ok l \<Longrightarrow> morse_token_ok l"
  by (auto simp add: morse_letter_ok_def morse_token_ok_def list_all_iff)

lemma morse_letters_ok_tokens: "list_all morse_letter_ok w \<Longrightarrow> list_all morse_token_ok w"
  by (simp add: list_all_iff morse_letter_ok_token)

lemma morse_words_letters:
  "list_all morse_token_ok w \<Longrightarrow> morse_words (join [32] w) = [w]"
proof (induction w)
  case Nil
  show ?case by (simp add: morse_words_Nil)
next
  case (Cons l w)
  then have l: "l \<noteq> [] \<and> 32 \<notin> set l \<and> 47 \<notin> set l" and IH: "morse_words (join [32] w) = [w]"
    by (simp_all add: morse_token_ok_def)
  show ?case
  proof (cases "w = []")
    case True
    with l show ?thesis by (simp add: morse_words_token)
  next
    case False
    with l IH show ?thesis by (simp add: join_Cons morse_words_token_space)
  qed
qed

lemma morse_words_letters_gap:
  "list_all morse_token_ok w \<Longrightarrow>
   morse_words (join [32] w @ 32 # 47 # 32 # r) = w # morse_words r"
proof (induction w)
  case Nil
  show ?case by (simp add: morse_words_space morse_words_slash)
next
  case (Cons l w)
  then have l: "l \<noteq> [] \<and> 32 \<notin> set l \<and> 47 \<notin> set l"
    and IH: "morse_words (join [32] w @ 32 # 47 # 32 # r) = w # morse_words r"
    by (simp_all add: morse_token_ok_def)
  show ?case
  proof (cases "w = []")
    case True
    with l show ?thesis
      by (simp add: morse_words_token_space morse_words_slash morse_words_space)
  next
    case False
    with l IH show ?thesis by (simp add: join_Cons morse_words_token_space)
  qed
qed

lemma morse_words_standard:
  "ws \<noteq> [] \<Longrightarrow> list_all (list_all morse_token_ok) ws \<Longrightarrow> morse_words (morse_standard ws) = ws"
proof (induction ws)
  case Nil
  then show ?case by simp
next
  case (Cons w ws)
  show ?case
  proof (cases "ws = []")
    case True
    with Cons.prems show ?thesis
      by (simp add: morse_standard_def lit_space morse_words_letters)
  next
    case False
    with Cons have "morse_words (morse_standard ws) = ws" by simp
    with False Cons.prems show ?thesis
      by (simp add: morse_standard_def lit_space lit_word_gap join_Cons morse_words_letters_gap)
  qed
qed

lemma join_not_Nil: "xs \<noteq> [] \<Longrightarrow> hd xs \<noteq> [] \<Longrightarrow> join sep xs \<noteq> []"
  by (cases xs) (simp_all add: join_Cons)

lemma symbol_timing_on:
  "c = 46 \<or> c = 45 \<Longrightarrow> symbol_timing u c = [on_entry u c]"
  by (auto simp add: symbol_timing_def on_entry_def)

lemma letter_timing_ok:
  assumes "morse_letter_ok l"
  shows "letter_timing u l = join [(Off, u)] (map (\<lambda>c. [on_entry u c]) l)"
    and "letter_timing u l \<noteq> []"
proof -
  have m: "map (symbol_timing u) l = map (\<lambda>c. [on_entry u c]) l"
    using assms by (simp add: morse_letter_ok_def list_all_iff symbol_timing_on)
  have f: "filter (\<lambda>e. e \<noteq> []) (map (\<lambda>c. [on_entry u c]) l) = map (\<lambda>c. [on_entry u c]) l"
    by (induction l) simp_all
  show 1: "letter_timing u l = join [(Off, u)] (map (\<lambda>c. [on_entry u c]) l)"
    by (simp only: letter_timing_def m f)
  from assms have "l \<noteq> []" by (simp add: morse_letter_ok_def)
  then show "letter_timing u l \<noteq> []"
    unfolding 1 by (cases l) (simp_all add: join_Cons)
qed

lemma word_timing_ok:
  assumes "w \<noteq> []" "list_all morse_letter_ok w"
  shows "word_timing u w =
           join [(Off, 3 * u)] (map (\<lambda>l. join [(Off, u)] (map (\<lambda>c. [on_entry u c]) l)) w)"
    and "word_timing u w \<noteq> []"
proof -
  have f: "filter (\<lambda>e. e \<noteq> []) (map (letter_timing u) w) = map (letter_timing u) w"
    using assms(2) by (simp add: list_all_iff letter_timing_ok(2))
  have m: "map (letter_timing u) w = map (\<lambda>l. join [(Off, u)] (map (\<lambda>c. [on_entry u c]) l)) w"
    using assms(2) by (simp add: list_all_iff letter_timing_ok(1))
  show 1: "word_timing u w =
      join [(Off, 3 * u)] (map (\<lambda>l. join [(Off, u)] (map (\<lambda>c. [on_entry u c]) l)) w)"
    unfolding word_timing_def f unfolding m ..
  have "word_timing u w = join [(Off, 3 * u)] (map (letter_timing u) w)"
    by (simp add: word_timing_def f)
  moreover have "hd (map (letter_timing u) w) \<noteq> []"
    using assms by (cases w) (simp_all add: letter_timing_ok(2))
  ultimately show "word_timing u w \<noteq> []"
    using assms(1) by (simp add: join_not_Nil)
qed

lemma to_timing_standard:
  assumes "morse_message_ok ws"
  shows "morse_to_timing (morse_standard ws) u = timing_schedule u ws"
proof -
  from assms have ne: "ws \<noteq> []" and ok: "list_all (list_all morse_token_ok) ws"
    and wne: "\<forall>w\<in>set ws. w \<noteq> [] \<and> list_all morse_letter_ok w"
    by (auto simp add: morse_message_ok_def list_all_iff morse_letter_ok_token)
  have p: "morse_words (morse_standard ws) = ws"
    using ne ok by (rule morse_words_standard)
  have f: "filter (\<lambda>e. e \<noteq> []) (map (word_timing u) ws) = map (word_timing u) ws"
    using wne by (simp add: word_timing_ok(2))
  have m: "map (word_timing u) ws =
      map (\<lambda>w. join [(Off, 3 * u)] (map (\<lambda>l. join [(Off, u)] (map (\<lambda>c. [on_entry u c]) l)) w)) ws"
    using wne by (simp add: word_timing_ok(1))
  show ?thesis
    unfolding morse_to_timing_def p f timing_schedule_def unfolding m ..
qed

lemma join_last:
  "xs \<noteq> [] \<Longrightarrow> last xs \<noteq> [] \<Longrightarrow> join sep xs \<noteq> [] \<and> last (join sep xs) = last (last xs)"
proof (induction xs)
  case Nil
  then show ?case by simp
next
  case (Cons x xs)
  show ?case
  proof (cases "xs = []")
    case True
    with Cons.prems show ?thesis by simp
  next
    case False
    with Cons have "join sep xs \<noteq> [] \<and> last (join sep xs) = last (last xs)" by simp
    with False show ?thesis by (simp add: join_Cons)
  qed
qed

lemma timing_schedule_last:
  assumes "morse_message_ok ws"
  shows "last (timing_schedule u ws) = on_entry u (last (last (last ws)))"
proof -
  let ?letter = "\<lambda>l. join [(Off, u)] (map (\<lambda>c. [on_entry u c]) l)"
  let ?word = "\<lambda>w. join [(Off, 3 * u)] (map ?letter w)"
  from assms have ws: "ws \<noteq> []" and w: "last ws \<noteq> []" and lw: "list_all morse_letter_ok (last ws)"
    by (auto simp add: morse_message_ok_def list_all_iff)
  from w lw have l: "last (last ws) \<noteq> []"
    by (auto simp add: list_all_iff morse_letter_ok_def)
  have letter: "?letter (last (last ws)) \<noteq> [] \<and>
      last (?letter (last (last ws))) = on_entry u (last (last (last ws)))"
    using l join_last[of "map (\<lambda>c. [on_entry u c]) (last (last ws))" "[(Off, u)]"]
    by (simp add: last_map)
  have word: "?word (last ws) \<noteq> [] \<and> last (?word (last ws)) = on_entry u (last (last (last ws)))"
    using w letter join_last[of "map ?letter (last ws)" "[(Off, 3 * u)]"]
    by (simp add: last_map)
  show ?thesis
    using ws word join_last[of "map ?word ws" "[(Off, 7 * u)]"]
    by (simp add: timing_schedule_def last_map)
qed

text \<open>
  C4. For every Morse message in the STANDARD convention and every \<open>unit_ms\<close>,
  \<open>morse.to_timing\<close> emits one on-entry of \<open>unit_ms\<close> per dot and of \<open>3 * unit_ms\<close>
  per dash, an off-entry of \<open>unit_ms\<close> between the symbols of a letter, of \<open>3 * unit_ms\<close>
  between letters and of \<open>7 * unit_ms\<close> between words, and the last entry is the on-entry
  of the last symbol (no gap after it). A single dot and a single dash give one on-entry,
  and \<open>to_timing(".-", 100)\<close> is \<open>[(on,100),(off,100),(on,300)]\<close>.
\<close>

theorem morse_to_timing_schedule:
  "(morse_message_ok ws \<longrightarrow>
      morse_to_timing (morse_standard ws) unit_ms = timing_schedule unit_ms ws \<and>
      last (morse_to_timing (morse_standard ws) unit_ms) = on_entry unit_ms (last (last (last ws)))) \<and>
   morse_to_timing (lit ''.'') unit_ms = [(On, unit_ms)] \<and>
   morse_to_timing (lit ''-'') unit_ms = [(On, 3 * unit_ms)] \<and>
   morse_to_timing (lit ''.-'') 100 = [(On, 100), (Off, 100), (On, 300)]"
proof -
  have "morse_to_timing (lit ''.'') unit_ms = [(On, unit_ms)]"
    and "morse_to_timing (lit ''-'') unit_ms = [(On, 3 * unit_ms)]"
    and "morse_to_timing (lit ''.-'') 100 = [(On, 100), (Off, 100), (On, 300)]"
    by (simp_all add: morse_to_timing_def word_timing_def letter_timing_def symbol_timing_def
        morse_words_def morse_letters_def lit_def)
  then show ?thesis
    using to_timing_standard[of ws unit_ms] timing_schedule_last[of ws unit_ms] by simp
qed

theorem morse_to_timing_schedule_witness:
  "morse_message_ok [[lit ''.-'', lit ''-...''], [lit ''-.-.'']] \<and>
   morse_standard [[lit ''.-'', lit ''-...''], [lit ''-.-.'']] = lit ''.- -... / -.-.'' \<and>
   morse_to_timing (lit ''.- -... / -.-.'') 100 =
     [(On, 100), (Off, 100), (On, 300), (Off, 300),
      (On, 300), (Off, 100), (On, 100), (Off, 100), (On, 100), (Off, 100), (On, 100), (Off, 700),
      (On, 300), (Off, 100), (On, 100), (Off, 100), (On, 300), (Off, 100), (On, 100)]"
proof -
  have ok: "morse_message_ok [[lit ''.-'', lit ''-...''], [lit ''-.-.'']]"
    by (simp add: morse_message_ok_def morse_letter_ok_def lit_def)
  have st: "morse_standard [[lit ''.-'', lit ''-...''], [lit ''-.-.'']] = lit ''.- -... / -.-.''"
    by (simp add: morse_standard_def lit_def)
  have "timing_schedule 100 [[lit ''.-'', lit ''-...''], [lit ''-.-.'']] =
     [(On, 100), (Off, 100), (On, 300), (Off, 300),
      (On, 300), (Off, 100), (On, 100), (Off, 100), (On, 100), (Off, 100), (On, 100), (Off, 700),
      (On, 300), (Off, 100), (On, 100), (Off, 100), (On, 300), (Off, 100), (On, 100)]"
    by (simp add: timing_schedule_def on_entry_def lit_def)
  with ok st show ?thesis
    using morse_to_timing_schedule[of "[[lit ''.-'', lit ''-...''], [lit ''-.-.'']]" 100]
    by simp
qed

section \<open>Properties of the Braille codec\<close>

lemma length_braille_masks: "length (braille_masks t) = eligible_character_count t"
proof -
  have "(map_of braille_table c \<noteq> None) = braille_eligible c" for c
    using map_of_eq_None_iff[of braille_table c] by (simp add: braille_eligible_def)
  then show ?thesis
    by (simp add: braille_masks_def List.map_filter_def eligible_character_count_def)
qed

lemma length_cell_columns: "length (concat (map (\<lambda>m. [f m, g m]) ms)) = 2 * length ms"
  by (induction ms) simp_all

text \<open>
  C5. For every text, \<open>braille.to_binary_grid\<close> returns exactly 3 rows, each of
  \<open>2 * n\<close> columns, where \<open>n\<close> is the number of eligible characters of the text (the
  number of cells \<open>braille.encode\<close> gives).
\<close>

theorem binary_grid_dimensions:
  "length (braille_to_binary_grid t) = 3 \<and>
   map length (braille_to_binary_grid t) = replicate 3 (2 * eligible_character_count t) \<and>
   length (braille_encode t) = eligible_character_count t"
  by (simp add: braille_to_binary_grid_def length_cell_columns length_braille_masks
      braille_encode_def numeral_3_eq_3)

theorem binary_grid_dimensions_witness:
  "eligible_character_count (lit ''a#b'') = 2 \<and>
   braille_to_binary_grid (lit ''a#b'') =
     [[True, False, True, False], [False, False, True, False], [False, False, False, False]] \<and>
   map length (braille_to_binary_grid (lit ''a#b'')) = [4, 4, 4]"
proof -
  have n: "eligible_character_count (lit ''a#b'') = 2"
    by (simp add: eligible_character_count_def braille_eligible_def braille_table_def
        BRAILLE_MAP_def upper_def upper_cp_def lit_def)
  have "braille_to_binary_grid (lit ''a#b'') =
     [[True, False, True, False], [False, False, True, False], [False, False, False, False]]"
    by (simp add: braille_to_binary_grid_def braille_masks_def braille_table_def
        BRAILLE_MAP_def upper_def upper_cp_def lit_def List.map_filter_def dot_raised_def)
  with n show ?thesis
    using binary_grid_dimensions[of "lit ''a#b''"] by (simp add: numeral_3_eq_3)
qed

text \<open>
  The size check of the punchcard pattern is the one the scaling needs: a block of at
  least 2 by 3 characters shows each of the six dot positions, and such a block is
  rendered.
\<close>

lemma scaled_index_onto:
  fixes n k r :: nat
  assumes "0 < k" "k \<le> n" "r < k"
  shows "\<exists>y<n. y * k div n = r"
proof -
  define a where "a = r * n"
  define y where "y = (a + (k - 1)) div k"
  have lo: "a \<le> y * k"
  proof -
    have "a + (k - 1) < (y + 1) * k"
      using assms(1) unfolding y_def
      by (metis Suc_eq_plus1 dividend_less_div_times mult.commute mult_Suc_right add.commute
          less_diff_conv)
    then show ?thesis using assms(1) by (simp add: algebra_simps)
  qed
  have hi: "y * k \<le> a + (k - 1)"
    unfolding y_def by simp
  have "a + (k - 1) < a + n"
    using assms(1,2) by simp
  with hi have up: "y * k < n * Suc r"
    by (simp add: a_def algebra_simps)
  have "n * r \<le> y * k"
    using lo by (simp add: a_def mult.commute)
  then have "y * k div n = r"
    using up by (rule div_nat_eqI)
  moreover have "y < n"
  proof -
    have "Suc r \<le> k" using assms(3) by simp
    then have "n * Suc r \<le> n * k" by (rule mult_le_mono2)
    with up have "y * k < n * k" by (rule less_le_trans)
    then show ?thesis by simp
  qed
  ultimately show ?thesis by blast
qed

lemma punchcard_block_covers_dots:
  fixes w h r c :: nat
  assumes "2 \<le> w" "3 \<le> h" "r < 3" "c < 2"
  shows "\<exists>y<h. \<exists>x<w. y * 3 div h = r \<and> x * 2 div w = c"
proof -
  obtain y where "y < h" "y * 3 div h = r"
    using scaled_index_onto[of 3 h r] assms(2,3) by auto
  moreover obtain x where "x < w" "x * 2 div w = c"
    using scaled_index_onto[of 2 w c] assms(1,4) by auto
  ultimately show ?thesis by blast
qed

lemma punchcard_accepts_large_cells:
  "2 \<le> cell_width \<Longrightarrow> 3 \<le> cell_height \<Longrightarrow>
   \<exists>p. braille_to_punchcard_pattern t cell_width cell_height = Inr p"
  by (simp add: braille_to_punchcard_pattern_def)

lemma call_tool_braille_punchcard:
  assumes "arguments (lit ''text'') = Some txt"
  shows "call_tool enc (lit ''braille_punchcard'') arguments =
           py_bind (enc_braille_to_punchcard_pattern enc txt
              (dict_get arguments (lit ''cell_width'') (PInt 4))
              (dict_get arguments (lit ''cell_height'') (PInt 6))) text_content"
  using assms by (simp add: call_tool_def getitem_def py_bind_def lit_eq_iff)

text \<open>
  On the modelled \<open>braille.to_punchcard_pattern\<close> a cell size below 2 by 3 gives the size
  error, also through the \<open>braille_punchcard\<close> tool; \<open>call_tool\<close> itself forwards the two
  sizes unchecked (lemma \<open>call_tool_braille_punchcard\<close>), so what the tool does for such
  sizes is what \<open>braille.py\<close> does.
\<close>

lemma modelled_punchcard_size_check:
  assumes "cell_width < 2 \<or> cell_height < 3"
    and "arguments (lit ''text'') = Some (PStr t)"
    and "dict_get arguments (lit ''cell_width'') (PInt 4) = PInt cell_width"
    and "dict_get arguments (lit ''cell_height'') (PInt 6) = PInt cell_height"
  shows "braille_to_punchcard_pattern t cell_width cell_height = Inl punchcard_size_error"
    and "call_tool spec_encoders (lit ''braille_punchcard'') arguments = Inl punchcard_size_error"
proof -
  show r: "braille_to_punchcard_pattern t cell_width cell_height = Inl punchcard_size_error"
    using assms(1) by (simp add: braille_to_punchcard_pattern_def)
  have "call_tool spec_encoders (lit ''braille_punchcard'') arguments =
      py_bind (enc_braille_to_punchcard_pattern spec_encoders (PStr t)
            (dict_get arguments (lit ''cell_width'') (PInt 4))
            (dict_get arguments (lit ''cell_height'') (PInt 6))) text_content"
    using assms(2) by (rule call_tool_braille_punchcard)
  then show "call_tool spec_encoders (lit ''braille_punchcard'') arguments =
      Inl punchcard_size_error"
    by (simp add: assms(3,4) r spec_encoders_def with_str_def with_int_def py_bind_def)
qed

section \<open>Decoding on the modelled codec\<close>

text \<open>
  The modelled decoders on strings that \<open>encode\<close> does not produce: a sequence of tokens
  separated by single spaces is decoded token by token, and a token or code point that
  the tables do not know becomes the placeholder \<open>?\<close>.
\<close>

lemma morse_decode_tokens:
  assumes "list_all morse_token_ok toks"
  shows "morse_decode (join [32] toks) = map morse_decode_token toks"
  by (simp add: morse_decode_def morse_words_letters[OF assms] lit_space)

lemma braille_decode_unknown:
  assumes "i < length s" "s ! i \<notin> set (map fst braille_inverse)"
  shows "braille_decode s ! i = 63"
proof -
  have "map_of braille_inverse (s ! i) = None"
    using assms(2) by (simp add: map_of_eq_None_iff)
  with assms(1) show ?thesis
    by (simp add: braille_decode_def braille_decode_cell_def)
qed

lemma morse_decode_token_unknown:
  assumes "tok \<notin> set (map fst morse_inverse)"
  shows "morse_decode_token tok = 63"
proof -
  have "map_of morse_inverse tok = None"
    using assms by (simp add: map_of_eq_None_iff)
  then show ?thesis by (simp add: morse_decode_token_def)
qed

lemma modelled_decode_examples:
  "morse_decode (lit ''.- ...... / x -'') = lit ''A? ?T''"
  "braille_decode [0x2801, 0x28FF, 65] = lit ''A??''"
  by (simp_all add: spec_encoders_eval)

section \<open>The transcode round trip\<close>

lemma transcode_text_to_morse:
  "transcode spec_encoders (PStr t) (lit ''text'') (lit ''morse'') =
     Inr [TextContent (lit ''text'') (morse_encode t STANDARD)]"
  by (simp add: transcode_def call_tool_transcode transcode_to_text_def transcode_to_target_def
      morse_encode_default_format_def lit_eq_iff spec_encoders_def with_str_def py_bind_def
      text_content_def)

lemma transcode_morse_to_text:
  "transcode spec_encoders (PStr m) (lit ''morse'') (lit ''text'') =
     Inr [TextContent (lit ''text'') (morse_decode m)]"
  by (simp add: transcode_def call_tool_transcode transcode_to_text_def transcode_to_target_def
      lit_eq_iff spec_encoders_def with_str_def py_bind_def text_content_def)

lemma morse_roundtrip_alphabet_text:
  assumes "\<forall>c\<in>set t. in_morse_alphabet (upper_cp c)"
  shows "morse_decode (morse_encode t STANDARD) = upper t"
proof -
  have "\<forall>c\<in>set (upper t). in_morse_alphabet c"
    using assms by (simp add: upper_def)
  then have "filter in_morse_alphabet (upper t) = upper t"
    by (rule filter_True)
  then show ?thesis by (simp add: morse_roundtrip_projection)
qed

text \<open>
  C3. For every text consisting only of Morse-alphabet characters (letters of either
  case, digits, the punctuation of the table and spaces),
  \<open>transcode(transcode(text, "text", "morse"), "morse", "text")\<close> is the uppercased text.
\<close>

theorem transcode_morse_roundtrip:
  assumes "\<forall>c\<in>set t. in_morse_alphabet (upper_cp c)"
  shows "py_bind (transcode_str spec_encoders (PStr t) (lit ''text'') (lit ''morse''))
           (\<lambda>m. transcode_str spec_encoders m (lit ''morse'') (lit ''text'')) =
         Inr (PStr (upper t))"
  by (simp add: transcode_str_def transcode_text_to_morse transcode_morse_to_text py_bind_def
      morse_roundtrip_alphabet_text[OF assms])

theorem transcode_morse_roundtrip_witness:
  "list_all (\<lambda>c. in_morse_alphabet (upper_cp c)) (lit ''Sos, 73?'') \<and>
   transcode_str spec_encoders (PStr (lit ''Sos, 73?'')) (lit ''text'') (lit ''morse'') =
     Inr (PStr (lit ''... --- ... --..-- / --... ...-- ..--..'')) \<and>
   transcode_str spec_encoders (PStr (lit ''... --- ... --..-- / --... ...-- ..--..''))
       (lit ''morse'') (lit ''text'') =
     Inr (PStr (lit ''SOS, 73?''))"
proof -
  have h: "list_all (\<lambda>c. in_morse_alphabet (upper_cp c)) (lit ''Sos, 73?'')"
    by (simp add: in_morse_alphabet_def morse_table_def MORSE_CODE_def upper_cp_def lit_def)
  then have "\<forall>c\<in>set (lit ''Sos, 73?''). in_morse_alphabet (upper_cp c)"
    by (simp only: list_all_iff)
  from transcode_morse_roundtrip[OF this]
  have r: "py_bind (transcode_str spec_encoders (PStr (lit ''Sos, 73?'')) (lit ''text'') (lit ''morse''))
           (\<lambda>m. transcode_str spec_encoders m (lit ''morse'') (lit ''text'')) =
         Inr (PStr (upper (lit ''Sos, 73?'')))" .
  have e: "transcode_str spec_encoders (PStr (lit ''Sos, 73?'')) (lit ''text'') (lit ''morse'') =
     Inr (PStr (lit ''... --- ... --..-- / --... ...-- ..--..''))"
  proof -
    have "morse_encode (lit ''Sos, 73?'') STANDARD = lit ''... --- ... --..-- / --... ...-- ..--..''"
      by (simp add: spec_encoders_eval)
    then show ?thesis
      by (simp add: transcode_str_def transcode_text_to_morse)
  qed
  have u: "upper (lit ''Sos, 73?'') = lit ''SOS, 73?''"
    by (simp add: upper_def upper_cp_def lit_def)
  from r show ?thesis
    unfolding e u using h e by (simp add: py_bind_def)
qed

end
